theory Spec2Isabelle
  imports Complex_Main "HOL-Library.Log_Nat"
begin

section \<open>Values of the JavaScript runtime\<close>

text \<open>
  The component keeps its progress in \<^verbatim>\<open>localStorage\<close> as JSON text and reads it back
  with \<^verbatim>\<open>JSON.parse\<close>, whose result is untyped. A \<^verbatim>\<open>completed\<close> flag is therefore
  whatever value the lookup \<^verbatim>\<open>m[q.Title] || false\<close> yields: a value of the stored or
  imported document, a member inherited from \<^verbatim>\<open>Object.prototype\<close> when the title names
  one, or a boolean written by the component itself.

  Numbers are doubles: \<^verbatim>\<open>NaN\<close>, the infinities and the finite values. A finite double is
  read as the rational it denotes. Strings are \<^typ>\<open>string\<close>. An object is the list of its
  own enumerable properties in insertion order (the engine's reordering of integer-like
  keys changes the order of the serialised text only). A built-in function is known by its
  name.
\<close>

datatype number = NaN | NegInf | Fin rat | PosInf

datatype jsval =
    JNull
  | JBool bool
  | JNum number
  | JStr string
  | JArr "jsval list"
  | JObj "(string \<times> jsval) list"
  | JFunction string

datatype error = SyntaxError | TypeError

text \<open>\<^verbatim>\<open>ToBoolean\<close>: what \<^verbatim>\<open>!x\<close>, \<^verbatim>\<open>x || y\<close> and \<^verbatim>\<open>filter\<close> test.\<close>

fun truthy :: "jsval \<Rightarrow> bool" where
  "truthy JNull = False"
| "truthy (JBool b) = b"
| "truthy (JNum n) = (n \<noteq> Fin 0 \<and> n \<noteq> NaN)"
| "truthy (JStr s) = (s \<noteq> [])"
| "truthy (JArr xs) = True"
| "truthy (JObj kvs) = True"
| "truthy (JFunction f) = True"

text \<open>\<^verbatim>\<open>x || false\<close>, where \<open>None\<close> is \<^verbatim>\<open>undefined\<close> (a missing property).\<close>

fun or_false :: "jsval option \<Rightarrow> jsval" where
  "or_false None = JBool False"
| "or_false (Some v) = (if truthy v then v else JBool False)"

subsection \<open>Property access\<close>

text \<open>The canonical decimal text of an array index, as property keys spell it.\<close>

definition digit_char :: "nat \<Rightarrow> char" where
  "digit_char d = char_of (48 + d)"

fun dec_rev :: "nat \<Rightarrow> nat \<Rightarrow> string" where
  "dec_rev 0 n = []"
| "dec_rev (Suc fuel) n =
     (if n < 10 then [digit_char n] else digit_char (n mod 10) # dec_rev fuel (n div 10))"

definition index_key :: "nat \<Rightarrow> string" where
  "index_key n = rev (dec_rev (Suc n) n)"

text \<open>
  Own properties of a value: those of an object; the elements and the length of an array;
  the characters and the length of a string; none for booleans and numbers.
\<close>

fun own_properties :: "jsval \<Rightarrow> (string \<times> jsval) list" where
  "own_properties (JObj kvs) = kvs"
| "own_properties (JArr xs) =
     zip (map index_key [0..<length xs]) xs @ [(''length'', JNum (Fin (of_nat (length xs))))]"
| "own_properties (JStr s) =
     zip (map index_key [0..<length s]) (map (\<lambda>c. JStr [c]) s)
       @ [(''length'', JNum (Fin (of_nat (length s))))]"
| "own_properties v = []"

text \<open>
  What every value inherits from \<^verbatim>\<open>Object.prototype\<close>: eleven functions, and the
  accessor \<^verbatim>\<open>__proto__\<close>, which reads as the prototype object, an object without
  enumerable properties of its own.
\<close>

definition Object_prototype :: "(string \<times> jsval) list" where
  "Object_prototype =
     [(''constructor'', JFunction ''Object''),
      (''__defineGetter__'', JFunction ''__defineGetter__''),
      (''__defineSetter__'', JFunction ''__defineSetter__''),
      (''hasOwnProperty'', JFunction ''hasOwnProperty''),
      (''__lookupGetter__'', JFunction ''__lookupGetter__''),
      (''__lookupSetter__'', JFunction ''__lookupSetter__''),
      (''isPrototypeOf'', JFunction ''isPrototypeOf''),
      (''propertyIsEnumerable'', JFunction ''propertyIsEnumerable''),
      (''toString'', JFunction ''toString''),
      (''valueOf'', JFunction ''valueOf''),
      (''__proto__'', JObj []),
      (''toLocaleString'', JFunction ''toLocaleString'')]"

text \<open>
  The prototype chain behind the own properties. A plain object inherits from
  \<^verbatim>\<open>Object.prototype\<close> directly. An array, a string, a number and a boolean have a
  prototype of their own in between (\<^verbatim>\<open>Array.prototype\<close> and so on); its members are the
  runtime's and are the parameter \<open>builtins\<close>.
\<close>

fun inherited :: "(jsval \<Rightarrow> string \<Rightarrow> jsval option) \<Rightarrow> jsval \<Rightarrow> string \<Rightarrow> jsval option" where
  "inherited builtins (JObj kvs) k = map_of Object_prototype k"
| "inherited builtins v k =
     (case builtins v k of Some x \<Rightarrow> Some x | None \<Rightarrow> map_of Object_prototype k)"

text \<open>
  \<^verbatim>\<open>obj[key]\<close>: reading a property of \<^verbatim>\<open>null\<close> throws a \<^verbatim>\<open>TypeError\<close>; otherwise the
  own property if there is one, else the inherited one, else \<^verbatim>\<open>undefined\<close>.
\<close>

definition js_get ::
  "(jsval \<Rightarrow> string \<Rightarrow> jsval option) \<Rightarrow> jsval \<Rightarrow> string \<Rightarrow> error + jsval option" where
  "js_get builtins obj k =
     (case obj of
        JNull \<Rightarrow> Inl TypeError
      | _ \<Rightarrow>
          Inr (case map_of (own_properties obj) k of
                 Some v \<Rightarrow> Some v
               | None \<Rightarrow> inherited builtins obj k))"

text \<open>
  \<^verbatim>\<open>{...acc, [k]: v}\<close>: the copy keeps the properties of \<^verbatim>\<open>acc\<close> in order; an existing
  key keeps its place and takes the new value, a new key is appended. A computed key
  defines an own property, also when it is \<^verbatim>\<open>__proto__\<close>.
\<close>

fun obj_set :: "(string \<times> jsval) list \<Rightarrow> string \<Rightarrow> jsval \<Rightarrow> (string \<times> jsval) list" where
  "obj_set [] k v = [(k, v)]"
| "obj_set ((k', v') # kvs) k v =
     (if k' = k then (k, v) # kvs else (k', v') # obj_set kvs k v)"

subsection \<open>JSON text\<close>

text \<open>
  A text either is not JSON, or it is a JSON document: \<^verbatim>\<open>null\<close>, a boolean, a number
  literal (the rational it spells), a string, an array or an object (its members in the
  order of the text, a key possibly more than once).
\<close>

datatype json =
    JsNull
  | JsBool bool
  | JsNumber rat
  | JsString string
  | JsArray "json list"
  | JsObject "(string \<times> json) list"

datatype json_text = Malformed string | Doc json

text \<open>
  The double a number literal denotes: a literal of magnitude up to \<open>2^-1075\<close> rounds to
  zero, one from \<open>2^1024 - 2^970\<close> on rounds to an infinity. In between, the double is
  read as the literal's own value (the rounding to 53 bits changes neither whether it is
  zero nor what \<^verbatim>\<open>JSON.stringify\<close> followed by \<^verbatim>\<open>JSON.parse\<close> gives back).
\<close>

definition parse_number :: "rat \<Rightarrow> number" where
  "parse_number r =
     (if \<bar>r\<bar> \<le> 1 / 2 ^ 1075 then Fin 0
      else if 2 ^ 1024 - 2 ^ 970 \<le> \<bar>r\<bar> then (if r < 0 then NegInf else PosInf)
      else Fin r)"

text \<open>
  \<^verbatim>\<open>JSON.parse\<close> on a document: members are defined in the order of the text, a repeated
  key overwriting the earlier value.
\<close>

fun value_of :: "json \<Rightarrow> jsval"
  and values_of :: "json list \<Rightarrow> jsval list"
  and props_of :: "(string \<times> jsval) list \<Rightarrow> (string \<times> json) list \<Rightarrow> (string \<times> jsval) list" where
  "value_of JsNull = JNull"
| "value_of (JsBool b) = JBool b"
| "value_of (JsNumber r) = JNum (parse_number r)"
| "value_of (JsString s) = JStr s"
| "value_of (JsArray js) = JArr (values_of js)"
| "value_of (JsObject ps) = JObj (props_of [] ps)"
| "values_of [] = []"
| "values_of (j # js) = value_of j # values_of js"
| "props_of acc [] = acc"
| "props_of acc ((k, j) # ps) = props_of (obj_set acc k (value_of j)) ps"

fun JSON_parse :: "json_text \<Rightarrow> error + jsval" where
  "JSON_parse (Malformed s) = Inl SyntaxError"
| "JSON_parse (Doc j) = Inr (value_of j)"

text \<open>
  \<^verbatim>\<open>JSON.stringify\<close>: a function has no JSON form; as a property it is left out, as an
  array element it becomes \<^verbatim>\<open>null\<close>. \<^verbatim>\<open>NaN\<close> and the infinities are written
  \<^verbatim>\<open>null\<close>.
\<close>

fun to_json :: "jsval \<Rightarrow> json option"
  and to_json_list :: "jsval list \<Rightarrow> json list"
  and to_json_props :: "(string \<times> jsval) list \<Rightarrow> (string \<times> json) list" where
  "to_json JNull = Some JsNull"
| "to_json (JBool b) = Some (JsBool b)"
| "to_json (JNum n) = Some (case n of Fin r \<Rightarrow> JsNumber r | _ \<Rightarrow> JsNull)"
| "to_json (JStr s) = Some (JsString s)"
| "to_json (JArr xs) = Some (JsArray (to_json_list xs))"
| "to_json (JObj kvs) = Some (JsObject (to_json_props kvs))"
| "to_json (JFunction f) = None"
| "to_json_list [] = []"
| "to_json_list (x # xs) = (case to_json x of None \<Rightarrow> JsNull | Some j \<Rightarrow> j) # to_json_list xs"
| "to_json_props [] = []"
| "to_json_props ((k, v) # kvs) =
     (case to_json v of None \<Rightarrow> to_json_props kvs | Some j \<Rightarrow> (k, j) # to_json_props kvs)"

text \<open>
  The text that \<^verbatim>\<open>JSON.stringify(v)\<close> leaves where the component puts it. For a function
  the result is \<^verbatim>\<open>undefined\<close>, which \<^verbatim>\<open>setItem\<close> and \<^verbatim>\<open>Blob\<close> turn into the text
  \<^verbatim>\<open>undefined\<close>.
\<close>

definition JSON_stringify :: "jsval \<Rightarrow> json_text" where
  "JSON_stringify v = (case to_json v of None \<Rightarrow> Malformed ''undefined'' | Some j \<Rightarrow> Doc j)"

section \<open>The component's state\<close>

text \<open>
  A record as \<^verbatim>\<open>Papa.parse\<close> delivers it and the component extends it. A row that is
  cut short (the empty line after a trailing newline) has its first column, \<^verbatim>\<open>Title\<close>,
  and lacks later ones: \<open>None\<close> is \<^verbatim>\<open>undefined\<close>, a column the row does not have.
\<close>

record question =
  Title :: string
  Difficulty :: "string option"
  Frequency :: "string option"
  Link :: "string option"
  AcceptanceRate :: "string option"
  Topics :: "string option"
  completed :: jsval

datatype sort_key =
  KTitle | KDifficulty | KFrequency | KLink | KAcceptanceRate | KTopics | KCompleted

datatype direction = Asc | Desc

record sort_config =
  key :: sort_key
  direction :: direction

text \<open>
  \<open>localStorage\<close> is the one slot the component uses, \<^verbatim>\<open>'completedQuestions'\<close>:
  \<open>None\<close> when the key is absent. The displayed list (\<^verbatim>\<open>filteredQuestions\<close>) is
  recomputed by an effect whenever one of its inputs changes, so it is a function of the
  state (\<open>displayed\<close> below) rather than a field.
\<close>

record app_state =
  questions :: "question list"
  searchTerm :: string
  difficultyFilter :: string
  sortConfig :: sort_config
  localStorage :: "json_text option"

definition getItem :: "app_state \<Rightarrow> json_text option" where
  "getItem st = localStorage st"

definition setItem :: "json_text \<Rightarrow> app_state \<Rightarrow> app_state" where
  "setItem t st = st\<lparr>localStorage := Some t\<rparr>"

definition removeItem :: "app_state \<Rightarrow> app_state" where
  "removeItem st = st\<lparr>localStorage := None\<rparr>"

definition setQuestions :: "question list \<Rightarrow> app_state \<Rightarrow> app_state" where
  "setQuestions qs st = st\<lparr>questions := qs\<rparr>"

section \<open>Progress store\<close>

text \<open>
  \<^verbatim>\<open>qs.reduce((acc, q) => ({...acc, [q.Title]: q.completed}), {})\<close>, used by
  \<^verbatim>\<open>toggleQuestion\<close> and \<^verbatim>\<open>downloadProgress\<close>.
\<close>

definition completedQuestions :: "question list \<Rightarrow> jsval" where
  "completedQuestions qs = JObj (foldl (\<lambda>acc q. obj_set acc (Title q) (completed q)) [] qs)"

text \<open>
  \<^verbatim>\<open>qs.map(q => ({...q, completed: m[q.Title] || false}))\<close>, used at startup and by
  \<^verbatim>\<open>importProgress\<close>. The callback throws when \<^verbatim>\<open>m\<close> is \<^verbatim>\<open>null\<close>; on an empty list
  it is never called.
\<close>

fun with_status ::
  "(jsval \<Rightarrow> string \<Rightarrow> jsval option) \<Rightarrow> jsval \<Rightarrow> question list \<Rightarrow> error + question list" where
  "with_status builtins m [] = Inr []"
| "with_status builtins m (q # qs) =
     (case js_get builtins m (Title q) of
        Inl e \<Rightarrow> Inl e
      | Inr r \<Rightarrow>
          (case with_status builtins m qs of
             Inl e \<Rightarrow> Inl e
           | Inr qs' \<Rightarrow> Inr (q\<lparr>completed := or_false r\<rparr> # qs')))"

text \<open>
  Startup, once the CSV rows are parsed: \<^verbatim>\<open>getItem(...) || '{}'\<close> replaces an absent slot
  (and the empty text) by the empty object. An exception here is not caught.
\<close>

definition initial_state :: "json_text option \<Rightarrow> app_state" where
  "initial_state ls =
     \<lparr>questions = [], searchTerm = [], difficultyFilter = ''all'',
      sortConfig = \<lparr>key = KFrequency, direction = Desc\<rparr>, localStorage = ls\<rparr>"

definition load ::
  "(jsval \<Rightarrow> string \<Rightarrow> jsval option) \<Rightarrow> question list \<Rightarrow> json_text option \<Rightarrow> error + app_state" where
  "load builtins rows ls =
     (let st = initial_state ls;
          stored = (case getItem st of
                      None \<Rightarrow> Doc (JsObject [])
                    | Some t \<Rightarrow> if t = Malformed [] then Doc (JsObject []) else t)
      in case JSON_parse stored of
           Inl e \<Rightarrow> Inl e
         | Inr m \<Rightarrow>
             (case with_status builtins m rows of
                Inl e \<Rightarrow> Inl e
              | Inr questionsWithStatus \<Rightarrow> Inr (setQuestions questionsWithStatus st)))"

definition toggleQuestion :: "string \<Rightarrow> app_state \<Rightarrow> app_state" where
  "toggleQuestion title st =
     (let updatedQuestions =
            map (\<lambda>q. if Title q = title then q\<lparr>completed := JBool (\<not> truthy (completed q))\<rparr> else q)
              (questions st)
      in setItem (JSON_stringify (completedQuestions updatedQuestions))
           (setQuestions updatedQuestions st))"

definition resetProgress :: "app_state \<Rightarrow> app_state" where
  "resetProgress st =
     (let updatedQuestions = map (\<lambda>q. q\<lparr>completed := JBool False\<rparr>) (questions st)
      in removeItem (setQuestions updatedQuestions st))"


text \<open>
  \<^verbatim>\<open>importProgress\<close>: nothing happens without a file. Otherwise the \<^verbatim>\<open>try\<close> block parses
  the text, maps the questions, and only then sets the state and the slot; any exception in
  it (the parse, or the lookup in \<^verbatim>\<open>null\<close>) ends in the alert. The result is the new state
  and the alert shown, if any.
\<close>

definition importProgress ::
  "(jsval \<Rightarrow> string \<Rightarrow> jsval option) \<Rightarrow> json_text option \<Rightarrow> app_state
     \<Rightarrow> app_state \<times> string option" where
  "importProgress builtins file st =
     (case file of
        None \<Rightarrow> (st, None)
      | Some content \<Rightarrow>
          (case JSON_parse content of
             Inl e \<Rightarrow> (st, Some ''Invalid progress file.'')
           | Inr imported \<Rightarrow>
               (case with_status builtins imported (questions st) of
                  Inl e \<Rightarrow> (st, Some ''Invalid progress file.'')
                | Inr updatedQuestions \<Rightarrow>
                    (setItem (JSON_stringify imported) (setQuestions updatedQuestions st), None))))"

section \<open>Filter and sort\<close>

subsection \<open>Strings\<close>

text \<open>
  \<^verbatim>\<open>String.prototype.toLowerCase\<close> is the runtime's Unicode case mapping; it is the
  parameter \<open>toLowerCase\<close> of the definitions below.

  \<^verbatim>\<open>t.includes(s)\<close>: does \<open>s\<close> occur in \<open>t\<close> at some position.
\<close>

fun starts_with :: "string \<Rightarrow> string \<Rightarrow> bool" where
  "starts_with t [] = True"
| "starts_with [] (c # s) = False"
| "starts_with (d # t) (c # s) = (d = c \<and> starts_with t s)"

fun includes_str :: "string \<Rightarrow> string \<Rightarrow> bool" where
  "includes_str [] s = (s = [])"
| "includes_str (d # t) s = (starts_with (d # t) s \<or> includes_str t s)"

subsection \<open>Numbers\<close>

text \<open>
  A difference of two finite doubles has the sign of the exact difference (it may be
  rounded, it never rounds to zero), and the sort looks at the sign only.
\<close>

fun js_minus :: "number \<Rightarrow> number \<Rightarrow> number" where
  "js_minus NaN y = NaN"
| "js_minus x NaN = NaN"
| "js_minus PosInf PosInf = NaN"
| "js_minus NegInf NegInf = NaN"
| "js_minus PosInf y = PosInf"
| "js_minus NegInf y = NegInf"
| "js_minus (Fin a) PosInf = NegInf"
| "js_minus (Fin a) NegInf = PosInf"
| "js_minus (Fin a) (Fin b) = Fin (a - b)"

fun positive :: "number \<Rightarrow> bool" where
  "positive PosInf = True"
| "positive (Fin r) = (0 < r)"
| "positive x = False"

subsection \<open>\<^verbatim>\<open>Array.prototype.sort\<close>\<close>

text \<open>
  The sort is stable and moves an element behind another only when the comparator says
  "greater" (a \<^verbatim>\<open>NaN\<close> result counts as equal). For a comparator that is a consistent
  ordering every conforming sort returns this list; for an inconsistent one the order is
  up to the engine, and this is the order an insertion sort produces.
\<close>

fun insert_by :: "('a \<Rightarrow> 'a \<Rightarrow> number) \<Rightarrow> 'a \<Rightarrow> 'a list \<Rightarrow> 'a list" where
  "insert_by cmp x [] = [x]"
| "insert_by cmp x (y # ys) =
     (if positive (cmp x y) then y # insert_by cmp x ys else x # y # ys)"

definition Array_sort :: "('a \<Rightarrow> 'a \<Rightarrow> number) \<Rightarrow> 'a list \<Rightarrow> 'a list" where
  "Array_sort cmp xs = foldr (insert_by cmp) xs []"

subsection \<open>The derived list\<close>

text \<open>\<^verbatim>\<open>a[sortConfig.key]\<close>; \<open>None\<close> is \<^verbatim>\<open>undefined\<close>.\<close>

fun field :: "sort_key \<Rightarrow> question \<Rightarrow> jsval option" where
  "field KTitle q = Some (JStr (Title q))"
| "field KDifficulty q = map_option JStr (Difficulty q)"
| "field KFrequency q = map_option JStr (Frequency q)"
| "field KLink q = map_option JStr (Link q)"
| "field KAcceptanceRate q = map_option JStr (AcceptanceRate q)"
| "field KTopics q = map_option JStr (Topics q)"
| "field KCompleted q = Some (completed q)"

text \<open>
  \<^verbatim>\<open>parseFloat\<close> converts its argument to a string first: \<^verbatim>\<open>undefined\<close> becomes the text
  \<^verbatim>\<open>undefined\<close> (which then parses to \<^verbatim>\<open>NaN\<close>).
\<close>

definition ToString :: "string option \<Rightarrow> string" where
  "ToString v = (case v of None \<Rightarrow> ''undefined'' | Some s \<Rightarrow> s)"

text \<open>
  The comparator of the sort effect. \<^verbatim>\<open>parseFloat\<close> and \<^verbatim>\<open>localeCompare\<close> belong to the
  runtime and are parameters.
\<close>

definition compareFn ::
  "(string \<Rightarrow> number) \<Rightarrow> (string \<Rightarrow> string \<Rightarrow> number) \<Rightarrow> sort_config
     \<Rightarrow> question \<Rightarrow> question \<Rightarrow> number" where
  "compareFn parseFloat localeCompare cfg a b =
     (if key cfg = KFrequency then
        (if direction cfg = Asc
         then js_minus (parseFloat (ToString (Frequency a)))
                (parseFloat (ToString (Frequency b)))
         else js_minus (parseFloat (ToString (Frequency b)))
                (parseFloat (ToString (Frequency a))))
      else
        (case (field (key cfg) a, field (key cfg) b) of
           (Some (JStr aValue), Some (JStr bValue)) \<Rightarrow>
             (if direction cfg = Asc then localeCompare aValue bValue
              else localeCompare bValue aValue)
         | _ \<Rightarrow> Fin 0))"

text \<open>
  The callback of the search filter:
  \<^verbatim>\<open>q.Title.toLowerCase().includes(s.toLowerCase()) || q.Topics.toLowerCase().includes(s.toLowerCase())\<close>.
  The right operand is evaluated only when the left one is false, and calling a method on
  a missing \<^verbatim>\<open>Topics\<close> throws a \<^verbatim>\<open>TypeError\<close>.
\<close>

definition search_callback :: "(string \<Rightarrow> string) \<Rightarrow> string \<Rightarrow> question \<Rightarrow> error + bool" where
  "search_callback toLowerCase s q =
     (if includes_str (toLowerCase (Title q)) (toLowerCase s) then Inr True
      else case Topics q of
             None \<Rightarrow> Inl TypeError
           | Some topics \<Rightarrow> Inr (includes_str (toLowerCase topics) (toLowerCase s)))"

text \<open>\<^verbatim>\<open>Array.prototype.filter\<close> with a callback that may throw: the first exception ends it.\<close>

fun filter_throwing :: "('a \<Rightarrow> error + bool) \<Rightarrow> 'a list \<Rightarrow> error + 'a list" where
  "filter_throwing p [] = Inr []"
| "filter_throwing p (x # xs) =
     (case p x of
        Inl e \<Rightarrow> Inl e
      | Inr b \<Rightarrow>
          (case filter_throwing p xs of
             Inl e \<Rightarrow> Inl e
           | Inr ys \<Rightarrow> Inr (if b then x # ys else ys)))"

definition search_filter ::
  "(string \<Rightarrow> string) \<Rightarrow> string \<Rightarrow> question list \<Rightarrow> error + question list" where
  "search_filter toLowerCase s qs =
     (if s \<noteq> [] then filter_throwing (search_callback toLowerCase s) qs else Inr qs)"

definition difficulty_filter :: "string \<Rightarrow> question list \<Rightarrow> question list" where
  "difficulty_filter d qs =
     (if d \<noteq> ''all'' then filter (\<lambda>q. Difficulty q = Some d) qs else qs)"

text \<open>
  The effect that computes \<^verbatim>\<open>filteredQuestions\<close>: search, difficulty, sort. An exception
  in the search ends the effect.
\<close>

definition displayed ::
  "(string \<Rightarrow> number) \<Rightarrow> (string \<Rightarrow> string \<Rightarrow> number) \<Rightarrow> (string \<Rightarrow> string) \<Rightarrow> app_state
     \<Rightarrow> error + question list" where
  "displayed parseFloat localeCompare toLowerCase st =
     (case search_filter toLowerCase (searchTerm st) (questions st) of
        Inl e \<Rightarrow> Inl e
      | Inr filtered \<Rightarrow>
          Inr (Array_sort (compareFn parseFloat localeCompare (sortConfig st))
                 (difficulty_filter (difficultyFilter st) filtered)))"

section \<open>Progress percentage\<close>

text \<open>
  \<^verbatim>\<open>Math.round((done / total) * 100)\<close> is computed in IEEE 754 double precision: the
  quotient is rounded to the nearest double (ties to even), and so is the product. The
  counts are integers below \<open>2^53\<close> and exact. \<open>fl\<close> rounds a rational to 53 significant
  bits; overflow and subnormals do not arise for the values of this computation (between
  \<open>2^-53\<close> and \<open>100\<close>, or zero).
\<close>

definition pow2 :: "int \<Rightarrow> rat" where
  "pow2 e = (if 0 \<le> e then 2 ^ nat e else 1 / 2 ^ nat (- e))"

definition round_half_even :: "rat \<Rightarrow> int" where
  "round_half_even y =
     (let f = \<lfloor>y\<rfloor>; d = y - of_int f
      in if d < 1 / 2 then f else if 1 / 2 < d then f + 1 else if even f then f else f + 1)"

text \<open>The exponent \<open>e\<close> with \<open>2^e \<le> x < 2^(e+1)\<close>, for positive \<open>x\<close>.\<close>

definition binade :: "rat \<Rightarrow> int" where
  "binade x =
     (let (p, q) = quotient_of x;
          e0 = bitlen p - bitlen q
      in if pow2 e0 \<le> x then e0 else e0 - 1)"

definition fl :: "rat \<Rightarrow> rat" where
  "fl x =
     (if x = 0 then 0
      else let u = pow2 (binade \<bar>x\<bar> - 52)
           in sgn x * of_int (round_half_even (\<bar>x\<bar> / u)) * u)"

definition fdiv :: "rat \<Rightarrow> rat \<Rightarrow> rat" where
  "fdiv a b = fl (a / b)"

definition fmul :: "rat \<Rightarrow> rat \<Rightarrow> rat" where
  "fmul a b = fl (a * b)"

text \<open>\<^verbatim>\<open>Math.round\<close>: the nearest integer, a tie going up.\<close>

definition Math_round :: "rat \<Rightarrow> int" where
  "Math_round x = \<lfloor>x + 1 / 2\<rfloor>"

definition progress :: "question list \<Rightarrow> int" where
  "progress qs =
     (if 0 < length qs
      then Math_round
             (fmul (fdiv (of_nat (length (filter (\<lambda>q. truthy (completed q)) qs)))
                         (of_nat (length qs)))
                   100)
      else 0)"

section \<open>Auxiliary definitions\<close>

text \<open>The \<^verbatim>\<open>reduce\<close> loop of \<open>completedQuestions\<close>, from any accumulator.\<close>

definition entries :: "(string \<times> jsval) list \<Rightarrow> question list \<Rightarrow> (string \<times> jsval) list" where
  "entries acc qs = foldl (\<lambda>acc q. obj_set acc (Title q) (completed q)) acc qs"

text \<open>
  Example data: the two records of the specification's scenario, in the state of a first
  load; the record of the empty line after a trailing newline; a record whose title is
  the name of an inherited member.
\<close>

definition two_sum :: question where
  "two_sum =
     \<lparr>Title = ''Two Sum'', Difficulty = Some ''Easy'', Frequency = Some ''85.5'',
      Link = Some [], AcceptanceRate = Some [], Topics = Some ''Array, Hash Table'',
      completed = JBool False\<rparr>"

definition merge_k_lists :: question where
  "merge_k_lists =
     \<lparr>Title = ''Merge K Lists'', Difficulty = Some ''Hard'', Frequency = Some ''42.1'',
      Link = Some [], AcceptanceRate = Some [], Topics = Some ''Linked List, Heap'',
      completed = JBool False\<rparr>"

definition empty_line :: question where
  "empty_line =
     \<lparr>Title = [], Difficulty = None, Frequency = None, Link = None, AcceptanceRate = None,
      Topics = None, completed = JBool False\<rparr>"

definition constructor_row :: question where
  "constructor_row =
     \<lparr>Title = ''constructor'', Difficulty = Some ''Easy'', Frequency = Some ''10.0'',
      Link = Some [], AcceptanceRate = Some [], Topics = Some ''Design'', completed = JBool False\<rparr>"

definition example_state :: app_state where
  "example_state = setQuestions [two_sum, merge_k_lists] (initial_state None)"

text \<open>
  A flag as the component produces it: \<^verbatim>\<open>x || false\<close>, \<^verbatim>\<open>!x\<close> and \<^verbatim>\<open>false\<close> are all
  either truthy or the boolean \<^verbatim>\<open>false\<close>.
\<close>

definition app_flag :: "jsval \<Rightarrow> bool" where
  "app_flag v = (truthy v \<or> v = JBool False)"

text \<open>
  A value that comes back from \<^verbatim>\<open>JSON.parse(JSON.stringify(v))\<close> as it was: booleans,
  strings, \<^verbatim>\<open>null\<close>, finite numbers within the range of the doubles, and arrays and
  objects of such values; not a function, \<^verbatim>\<open>NaN\<close> or an infinity.
\<close>

definition survives :: "jsval \<Rightarrow> bool" where
  "survives v = (case to_json v of None \<Rightarrow> False | Some j \<Rightarrow> value_of j = v)"




text \<open>
  Example instances of the runtime's functions, for the example data: the value of the two
  frequency texts, a comparison of strings by character code, the case mapping of the
  ASCII letters, and a runtime without further built-in members.
\<close>

definition example_parseFloat :: "string \<Rightarrow> number" where
  "example_parseFloat s =
     (if s = ''85.5'' then Fin (171 / 2) else if s = ''42.1'' then Fin (421 / 10) else NaN)"

fun example_localeCompare :: "string \<Rightarrow> string \<Rightarrow> number" where
  "example_localeCompare [] [] = Fin 0"
| "example_localeCompare [] (d # t) = Fin (- 1)"
| "example_localeCompare (c # s) [] = Fin 1"
| "example_localeCompare (c # s) (d # t) =
     (if (of_char c :: nat) < of_char d then Fin (- 1)
      else if (of_char d :: nat) < of_char c then Fin 1
      else example_localeCompare s t)"

definition lower_char :: "char \<Rightarrow> char" where
  "lower_char c =
     (let n = (of_char c :: nat) in if 65 \<le> n \<and> n \<le> 90 then char_of (n + 32) else c)"

definition ascii_toLowerCase :: "string \<Rightarrow> string" where
  "ascii_toLowerCase s = map lower_char s"





definition no_builtins :: "jsval \<Rightarrow> string \<Rightarrow> jsval option" where
  "no_builtins v k = None"




text \<open>
  The percentage as the specification words it, in exact arithmetic: the number of
  completed records divided by the number of records, times 100, rounded; 0 for no records.
\<close>

definition spec_progress :: "question list \<Rightarrow> int" where
  "spec_progress qs =
     (if length qs = 0 then 0
      else Math_round
             (of_nat (length (filter (\<lambda>q. truthy (completed q)) qs)) / of_nat (length qs) * 100))"

text \<open>Forty records with distinct titles, the first 23 of them completed.\<close>

definition forty_questions :: "question list" where
  "forty_questions =
     map (\<lambda>i. two_sum\<lparr>Title := index_key i, completed := JBool (i < 23)\<rparr>) [0..<40]"

section \<open>Building the persisted object\<close>

lemma map_fst_obj_set:
  "map fst (obj_set kvs k v) = (if k \<in> set (map fst kvs) then map fst kvs else map fst kvs @ [k])"
proof (induction kvs)
  case Nil
  show ?case by simp
next
  case (Cons a kvs)
  obtain k' v' where a: "a = (k', v')" by (cases a)
  show ?case
  proof (cases "k' = k")
    case True
    then show ?thesis by (simp add: a)
  next
    case False
    then show ?thesis using Cons by (simp add: a)
  qed
qed


lemma obj_set_distinct: "distinct (map fst kvs) \<Longrightarrow> distinct (map fst (obj_set kvs k v))"
  unfolding map_fst_obj_set by simp


lemma map_of_obj_set: "map_of (obj_set kvs k v) = (map_of kvs)(k \<mapsto> v)"
  by (induction kvs) (auto simp: fun_eq_iff)


lemma entries_distinct: "distinct (map fst acc) \<Longrightarrow> distinct (map fst (entries acc qs))"
  by (induction qs arbitrary: acc) (auto simp: entries_def obj_set_distinct)

lemma map_of_entries:
  "map_of (entries acc qs) = map_of acc ++ map_of (rev (map (\<lambda>q. (Title q, completed q)) qs))"
proof (induction qs arbitrary: acc)
  case Nil
  show ?case by (simp add: entries_def)
next
  case (Cons a qs)
  have "entries acc (a # qs) = entries (obj_set acc (Title a) (completed a)) qs"
    by (simp add: entries_def)
  then show ?case
    by (simp add: Cons map_of_obj_set fun_eq_iff map_add_def split: option.splits)
qed


section \<open>Toggling a question\<close>

lemma completedQuestions_entries: "completedQuestions qs = JObj (entries [] qs)"
  by (simp add: completedQuestions_def entries_def)

lemma questions_toggleQuestion:
  "questions (toggleQuestion t st) =
     map (\<lambda>q. if Title q = t then q\<lparr>completed := JBool (\<not> truthy (completed q))\<rparr> else q) (questions st)"
  by (simp add: toggleQuestion_def Let_def setItem_def setQuestions_def)

lemma localStorage_toggleQuestion:
  "localStorage (toggleQuestion t st) =
     Some (JSON_stringify (completedQuestions (questions (toggleQuestion t st))))"
  by (simp add: toggleQuestion_def Let_def setItem_def setQuestions_def)

lemma others_toggleQuestion:
  "searchTerm (toggleQuestion t st) = searchTerm st"
  "difficultyFilter (toggleQuestion t st) = difficultyFilter st"
  "sortConfig (toggleQuestion t st) = sortConfig st"
  by (simp_all add: toggleQuestion_def Let_def setItem_def setQuestions_def)

lemma flipped_differs: "q\<lparr>completed := JBool (\<not> truthy (completed q))\<rparr> \<noteq> q"
proof
  assume "q\<lparr>completed := JBool (\<not> truthy (completed q))\<rparr> = q"
  then have "completed (q\<lparr>completed := JBool (\<not> truthy (completed q))\<rparr>) = completed q"
    by simp
  then have "JBool (\<not> truthy (completed q)) = completed q" by simp
  then show False by (cases "completed q") auto
qed

lemma toggled_nth_differs:
  assumes "i < length (questions st)"
  shows "questions (toggleQuestion t st) ! i \<noteq> questions st ! i \<longleftrightarrow> Title (questions st ! i) = t"
  using assms flipped_differs[of "questions st ! i"] by (simp add: questions_toggleQuestion)

lemma unique_index:
  assumes "distinct (map f xs)" "t \<in> f ` set xs"
  shows "\<exists>!i. i < length xs \<and> f (xs ! i) = t"
proof -
  from assms(2) obtain i where i: "i < length xs" "f (xs ! i) = t"
    by (auto simp: in_set_conv_nth)
  show ?thesis
  proof (rule ex1I[of _ i])
    show "i < length xs \<and> f (xs ! i) = t" using i by simp
  next
    fix j assume j: "j < length xs \<and> f (xs ! j) = t"
    then have "map f xs ! j = map f xs ! i" using i by simp
    moreover have "j < length (map f xs)" "i < length (map f xs)" using i j by simp_all
    ultimately show "j = i" using assms(1) nth_eq_iff_index_eq by blast
  qed
qed

text \<open>
  Claim C1, as the code has it: \<open>toggleQuestion t\<close> flips the \<^verbatim>\<open>completed\<close> flag of every
  record whose title is \<open>t\<close> and leaves every other record as it is. That is exactly one
  record when the titles are distinct and \<open>t\<close> is among them, and none when \<open>t\<close> is not a
  title. It then recomputes the object \<open>{Title \<rightarrow> completed}\<close> over the whole updated
  record set (for a title that occurs twice the later record gives the value) and writes
  it to storage. Search term, difficulty filter and sort configuration are untouched.
\<close>

theorem toggleQuestion_flips_every_match:
  "questions (toggleQuestion t st) =
     map (\<lambda>q. if Title q = t then q\<lparr>completed := JBool (\<not> truthy (completed q))\<rparr> else q) (questions st)
   \<and> (distinct (map Title (questions st)) \<and> t \<in> Title ` set (questions st) \<longrightarrow>
        (\<exists>!i. i < length (questions st) \<and> questions (toggleQuestion t st) ! i \<noteq> questions st ! i))
   \<and> (t \<notin> Title ` set (questions st) \<longrightarrow> questions (toggleQuestion t st) = questions st)
   \<and> localStorage (toggleQuestion t st) =
        Some (JSON_stringify (completedQuestions (questions (toggleQuestion t st))))
   \<and> (\<exists>kvs. completedQuestions (questions (toggleQuestion t st)) = JObj kvs
          \<and> distinct (map fst kvs)
          \<and> map_of kvs =
              map_of (rev (map (\<lambda>q. (Title q, completed q)) (questions (toggleQuestion t st)))))
   \<and> searchTerm (toggleQuestion t st) = searchTerm st
   \<and> difficultyFilter (toggleQuestion t st) = difficultyFilter st
   \<and> sortConfig (toggleQuestion t st) = sortConfig st"
proof -
  have a: "distinct (map Title (questions st)) \<and> t \<in> Title ` set (questions st) \<longrightarrow>
        (\<exists>!i. i < length (questions st) \<and> questions (toggleQuestion t st) ! i \<noteq> questions st ! i)"
  proof
    assume h: "distinct (map Title (questions st)) \<and> t \<in> Title ` set (questions st)"
    then have "\<exists>!i. i < length (questions st) \<and> Title (questions st ! i) = t"
      using unique_index[of Title "questions st" t] by simp
    moreover have "\<And>i. (i < length (questions st) \<and> Title (questions st ! i) = t)
        = (i < length (questions st) \<and> questions (toggleQuestion t st) ! i \<noteq> questions st ! i)"
      using toggled_nth_differs by blast
    ultimately show "\<exists>!i. i < length (questions st) \<and> questions (toggleQuestion t st) ! i \<noteq> questions st ! i"
      by simp
  qed
  have b: "t \<notin> Title ` set (questions st) \<longrightarrow> questions (toggleQuestion t st) = questions st"
  proof
    assume "t \<notin> Title ` set (questions st)"
    then have "\<forall>q\<in>set (questions st). Title q \<noteq> t" by auto
    then show "questions (toggleQuestion t st) = questions st"
      unfolding questions_toggleQuestion by (simp add: map_idI)
  qed
  have c: "\<exists>kvs. completedQuestions (questions (toggleQuestion t st)) = JObj kvs
          \<and> distinct (map fst kvs)
          \<and> map_of kvs =
              map_of (rev (map (\<lambda>q. (Title q, completed q)) (questions (toggleQuestion t st))))"
    by (simp add: completedQuestions_entries entries_distinct map_of_entries)
  show ?thesis
    using a b c questions_toggleQuestion localStorage_toggleQuestion others_toggleQuestion
    by blast
qed

theorem toggleQuestion_flips_every_match_witness:
  "(distinct (map Title (questions example_state))
      \<and> ''Two Sum'' \<in> Title ` set (questions example_state))
   \<and> (\<exists>!i. i < length (questions example_state)
          \<and> questions (toggleQuestion ''Two Sum'' example_state) ! i \<noteq> questions example_state ! i)
   \<and> ''3Sum'' \<notin> Title ` set (questions example_state)
   \<and> questions (toggleQuestion ''3Sum'' example_state) = questions example_state"
proof -
  have d: "distinct (map Title (questions example_state))
      \<and> ''Two Sum'' \<in> Title ` set (questions example_state)"
    by (simp add: example_state_def setQuestions_def initial_state_def two_sum_def
        merge_k_lists_def)
  have n: "''3Sum'' \<notin> Title ` set (questions example_state)"
    by (simp add: example_state_def setQuestions_def initial_state_def two_sum_def
        merge_k_lists_def)
  show ?thesis
    using d n toggleQuestion_flips_every_match[of "''Two Sum''" example_state]
      toggleQuestion_flips_every_match[of "''3Sum''" example_state]
    by blast
qed

text \<open>
  With a duplicated title the flag of both records flips, not of the first one only: two
  records titled \<open>A\<close>, both not completed, are both completed after \<open>toggleQuestion A\<close>.
\<close>

theorem toggleQuestion_duplicate_titles_counterexample:
  "map completed (questions (toggleQuestion ''A''
      \<lparr>questions =
         [\<lparr>Title = ''A'', Difficulty = Some ''Easy'', Frequency = Some ''2'', Link = Some [],
           AcceptanceRate = Some [], Topics = Some [], completed = JBool False\<rparr>,
          \<lparr>Title = ''A'', Difficulty = Some ''Hard'', Frequency = Some ''1'', Link = Some [],
           AcceptanceRate = Some [], Topics = Some [], completed = JBool False\<rparr>],
       searchTerm = [], difficultyFilter = ''all'',
       sortConfig = \<lparr>key = KFrequency, direction = Desc\<rparr>, localStorage = None\<rparr>))
   = [JBool True, JBool True]"
  by (simp add: toggleQuestion_def Let_def setItem_def setQuestions_def)

section \<open>Toggling twice\<close>

lemma questions_toggleQuestion_twice:
  "questions (toggleQuestion t (toggleQuestion t st)) =
     map (\<lambda>q. if Title q = t then q\<lparr>completed := JBool (truthy (completed q))\<rparr> else q) (questions st)"
  by (simp add: questions_toggleQuestion[of t "toggleQuestion t st"] questions_toggleQuestion[of t st]
      comp_def cong: if_cong)

lemma toggle_twice_booleans:
  assumes "\<forall>q\<in>set (questions st). Title q = t \<longrightarrow> (\<exists>b. completed q = JBool b)"
  shows "questions (toggleQuestion t (toggleQuestion t st)) = questions st"
proof -
  have "\<And>q. q \<in> set (questions st) \<Longrightarrow>
      (if Title q = t then q\<lparr>completed := JBool (truthy (completed q))\<rparr> else q) = q"
    using assms by auto
  then show ?thesis unfolding questions_toggleQuestion_twice by (simp add: map_idI)
qed

lemma toggleQuestion_state:
  "toggleQuestion t st =
     st\<lparr>questions := questions (toggleQuestion t st),
        localStorage := Some (JSON_stringify (completedQuestions (questions (toggleQuestion t st))))\<rparr>"
  by (simp add: toggleQuestion_def Let_def setItem_def setQuestions_def)

text \<open>
  Claim C2, as the code has it. After \<open>toggleQuestion t\<close> twice every record with title
  \<open>t\<close> carries the boolean of its flag's truth value, so the flags are the original ones
  when the flags under \<open>t\<close> were booleans. The slot then holds the object computed from
  the record set; it is the slot's value from before the two calls exactly when the slot
  already held that object, and in that case the whole state is as before.
\<close>

theorem toggleQuestion_twice:
  "questions (toggleQuestion t (toggleQuestion t st)) =
     map (\<lambda>q. if Title q = t then q\<lparr>completed := JBool (truthy (completed q))\<rparr> else q) (questions st)
   \<and> localStorage (toggleQuestion t (toggleQuestion t st)) =
       Some (JSON_stringify (completedQuestions (questions (toggleQuestion t (toggleQuestion t st)))))
   \<and> ((\<forall>q\<in>set (questions st). Title q = t \<longrightarrow> (\<exists>b. completed q = JBool b)) \<longrightarrow>
        questions (toggleQuestion t (toggleQuestion t st)) = questions st
        \<and> localStorage (toggleQuestion t (toggleQuestion t st)) =
            Some (JSON_stringify (completedQuestions (questions st)))
        \<and> (localStorage (toggleQuestion t (toggleQuestion t st)) = localStorage st
             \<longleftrightarrow> localStorage st = Some (JSON_stringify (completedQuestions (questions st))))
        \<and> (localStorage st = Some (JSON_stringify (completedQuestions (questions st)))
             \<longrightarrow> toggleQuestion t (toggleQuestion t st) = st))"
proof -
  have s: "localStorage (toggleQuestion t (toggleQuestion t st)) =
       Some (JSON_stringify (completedQuestions (questions (toggleQuestion t (toggleQuestion t st)))))"
    by (rule localStorage_toggleQuestion)
  have b: "(\<forall>q\<in>set (questions st). Title q = t \<longrightarrow> (\<exists>b. completed q = JBool b)) \<longrightarrow>
        questions (toggleQuestion t (toggleQuestion t st)) = questions st
        \<and> localStorage (toggleQuestion t (toggleQuestion t st)) =
            Some (JSON_stringify (completedQuestions (questions st)))
        \<and> (localStorage (toggleQuestion t (toggleQuestion t st)) = localStorage st
             \<longleftrightarrow> localStorage st = Some (JSON_stringify (completedQuestions (questions st))))
        \<and> (localStorage st = Some (JSON_stringify (completedQuestions (questions st)))
             \<longrightarrow> toggleQuestion t (toggleQuestion t st) = st)"
  proof
    assume h: "\<forall>q\<in>set (questions st). Title q = t \<longrightarrow> (\<exists>b. completed q = JBool b)"
    have q: "questions (toggleQuestion t (toggleQuestion t st)) = questions st"
      using h by (rule toggle_twice_booleans)
    have l: "localStorage (toggleQuestion t (toggleQuestion t st)) =
            Some (JSON_stringify (completedQuestions (questions st)))"
      using s q by simp
    have e: "localStorage st = Some (JSON_stringify (completedQuestions (questions st)))
             \<longrightarrow> toggleQuestion t (toggleQuestion t st) = st"
    proof
      assume i: "localStorage st = Some (JSON_stringify (completedQuestions (questions st)))"
      have "toggleQuestion t (toggleQuestion t st) =
          (toggleQuestion t st)\<lparr>questions := questions st,
             localStorage := Some (JSON_stringify (completedQuestions (questions st)))\<rparr>"
        using toggleQuestion_state[of t "toggleQuestion t st"] q by simp
      also have "\<dots> = st\<lparr>questions := questions st,
             localStorage := Some (JSON_stringify (completedQuestions (questions st)))\<rparr>"
        by (subst toggleQuestion_state[of t st]) simp
      also have "\<dots> = st" using i by simp
      finally show "toggleQuestion t (toggleQuestion t st) = st" .
    qed
    show "questions (toggleQuestion t (toggleQuestion t st)) = questions st
        \<and> localStorage (toggleQuestion t (toggleQuestion t st)) =
            Some (JSON_stringify (completedQuestions (questions st)))
        \<and> (localStorage (toggleQuestion t (toggleQuestion t st)) = localStorage st
             \<longleftrightarrow> localStorage st = Some (JSON_stringify (completedQuestions (questions st))))
        \<and> (localStorage st = Some (JSON_stringify (completedQuestions (questions st)))
             \<longrightarrow> toggleQuestion t (toggleQuestion t st) = st)"
      using q l e by auto
  qed
  show ?thesis using questions_toggleQuestion_twice s b by blast
qed

lemma example_titles:
  "questions example_state = [two_sum, merge_k_lists]" "localStorage example_state = None"
  "Title two_sum = ''Two Sum''" "Title merge_k_lists = ''Merge K Lists''"
  "completed two_sum = JBool False" "completed merge_k_lists = JBool False"
  by (simp_all add: example_state_def setQuestions_def initial_state_def two_sum_def
        merge_k_lists_def)


theorem toggleQuestion_twice_witness:
  "questions (toggleQuestion ''Two Sum'' (toggleQuestion ''Two Sum'' (toggleQuestion ''Two Sum'' example_state)))
     = questions (toggleQuestion ''Two Sum'' example_state)
   \<and> toggleQuestion ''Two Sum'' (toggleQuestion ''Two Sum'' (toggleQuestion ''Two Sum'' example_state))
       = toggleQuestion ''Two Sum'' example_state"
proof -
  have h: "\<forall>q\<in>set (questions (toggleQuestion ''Two Sum'' example_state)).
      Title q = ''Two Sum'' \<longrightarrow> (\<exists>b. completed q = JBool b)"
    by (auto simp add: questions_toggleQuestion example_titles)
  have i: "localStorage (toggleQuestion ''Two Sum'' example_state) =
      Some (JSON_stringify (completedQuestions (questions (toggleQuestion ''Two Sum'' example_state))))"
    by (rule localStorage_toggleQuestion)
  show ?thesis
    using h i toggleQuestion_twice[of "''Two Sum''" "toggleQuestion ''Two Sum'' example_state"]
    by blast
qed

text \<open>
  On a first load with nothing stored the slot is absent; two toggles leave an object
  with an entry for every title in it.
\<close>

theorem toggleQuestion_twice_counterexample:
  "localStorage (toggleQuestion ''Two Sum'' (toggleQuestion ''Two Sum'' example_state))
     \<noteq> localStorage example_state"
  by (simp add: localStorage_toggleQuestion example_titles)

section \<open>Reset and a fresh load\<close>

lemma questions_resetProgress:
  "questions (resetProgress st) = map (\<lambda>q. q\<lparr>completed := JBool False\<rparr>) (questions st)"
  by (simp add: resetProgress_def Let_def removeItem_def setQuestions_def)


lemma with_status_not_null:
  assumes "m \<noteq> JNull"
  shows "with_status builtins m qs =
     Inr (map (\<lambda>q. q\<lparr>completed :=
                 or_false (case map_of (own_properties m) (Title q) of
                             Some v \<Rightarrow> Some v
                           | None \<Rightarrow> inherited builtins m (Title q))\<rparr>) qs)"
proof (induction qs)
  case Nil
  show ?case by simp
next
  case (Cons q qs)
  have "js_get builtins m (Title q) =
      Inr (case map_of (own_properties m) (Title q) of
             Some v \<Rightarrow> Some v
           | None \<Rightarrow> inherited builtins m (Title q))"
    using assms by (auto simp: js_get_def split: jsval.splits)
  then show ?case using Cons by simp
qed

lemma load_absent:
  "load builtins rows None =
     Inr (setQuestions (map (\<lambda>q. q\<lparr>completed := or_false (map_of Object_prototype (Title q))\<rparr>) rows)
            (initial_state None))"
  by (simp add: load_def Let_def getItem_def initial_state_def with_status_not_null)






lemma first_load_with_constructor_row:
  "load no_builtins [constructor_row, two_sum] None
   = Inr (setQuestions [constructor_row\<lparr>completed := JFunction ''Object''\<rparr>, two_sum]
            (initial_state None))"
  by (simp add: load_absent Object_prototype_def constructor_row_def two_sum_def)

section \<open>Import\<close>

text \<open>
  Claim C6: when the content of the imported file does not parse as JSON, the alert
  \<^verbatim>\<open>Invalid progress file.\<close> is shown and the state (records, flags and storage slot) is
  the state from before.
\<close>

theorem importProgress_parse_failure:
  "JSON_parse content = Inl e \<Longrightarrow>
     importProgress builtins (Some content) st = (st, Some ''Invalid progress file.'')"
  by (simp add: importProgress_def)

theorem importProgress_parse_failure_witness:
  "JSON_parse (Malformed ''{oops'') = Inl SyntaxError
   \<and> importProgress no_builtins (Some (Malformed ''{oops'')) (toggleQuestion ''Two Sum'' example_state)
       = (toggleQuestion ''Two Sum'' example_state, Some ''Invalid progress file.'')"
  using importProgress_parse_failure[of "Malformed ''{oops''" SyntaxError no_builtins
      "toggleQuestion ''Two Sum'' example_state"]
  by simp

section \<open>The persisted object after a toggle\<close>















section \<open>Export and import\<close>

text \<open>Every operation of the component leaves flags that are truthy or \<^verbatim>\<open>false\<close>.\<close>

lemma app_flag_or_false: "app_flag (or_false r)"
  by (cases r) (simp_all add: app_flag_def)


lemma with_status_flags:
  "with_status builtins m qs = Inr qs' \<Longrightarrow> \<forall>q\<in>set qs'. app_flag (completed q)"
proof (induction qs arbitrary: qs')
  case Nil
  then show ?case by simp
next
  case (Cons q qs)
  then show ?case
    by (auto simp: app_flag_or_false split: sum.splits)
qed

lemma load_flags: "load builtins rows ls = Inr st \<Longrightarrow> \<forall>q\<in>set (questions st). app_flag (completed q)"
  by (auto simp: load_def Let_def setQuestions_def initial_state_def
      dest!: with_status_flags split: sum.splits)

lemma toggleQuestion_flags:
  "\<forall>q\<in>set (questions st). app_flag (completed q) \<Longrightarrow>
     \<forall>q\<in>set (questions (toggleQuestion t st)). app_flag (completed q)"
  by (auto simp: questions_toggleQuestion app_flag_def)

lemma resetProgress_flags: "\<forall>q\<in>set (questions (resetProgress st)). app_flag (completed q)"
  by (auto simp: questions_resetProgress app_flag_def)

lemma importProgress_flags:
  "\<forall>q\<in>set (questions st). app_flag (completed q) \<Longrightarrow>
     \<forall>q\<in>set (questions (fst (importProgress builtins file st))). app_flag (completed q)"
  by (auto simp: importProgress_def setItem_def setQuestions_def
      dest!: with_status_flags split: option.splits sum.splits)










lemma survives_JBool: "survives (JBool b)"
  by (simp add: survives_def)













section \<open>Search and difficulty filter\<close>



text \<open>The sort neither drops nor adds a record.\<close>

lemma set_insert_by: "set (insert_by cmp x ys) = insert x (set ys)"
  by (induction ys) auto

lemma set_Array_sort: "set (Array_sort cmp xs) = set xs"
  by (induction xs) (simp_all add: Array_sort_def set_insert_by)

lemma length_insert_by: "length (insert_by cmp x ys) = Suc (length ys)"
  by (induction ys) auto

lemma length_Array_sort: "length (Array_sort cmp xs) = length xs"
  by (induction xs) (simp_all add: Array_sort_def length_insert_by)



lemma filter_throwing_result:
  assumes "filter_throwing p xs = Inr ys"
  shows "ys = filter (\<lambda>x. p x = Inr True) xs"
  using assms
proof (induction xs arbitrary: ys)
  case Nil
  then show ?case by simp
next
  case (Cons x xs)
  then show ?case by (auto split: sum.splits if_splits)
qed









lemma set_difficulty_filter:
  "q \<in> set (difficulty_filter d qs) \<longleftrightarrow> q \<in> set qs \<and> (d = ''all'' \<or> Difficulty q = Some d)"
  by (auto simp: difficulty_filter_def)

lemma displayed_of_search:
  assumes "search_filter toLowerCase (searchTerm st) (questions st) = Inr f"
  shows "displayed parseFloat localeCompare toLowerCase st =
     Inr (Array_sort (compareFn parseFloat localeCompare (sortConfig st))
            (difficulty_filter (difficultyFilter st) f))"
  using assms by (simp add: displayed_def)





text \<open>
  Claim C4: for a difficulty filter \<open>d\<close> other than \<^verbatim>\<open>all\<close>, a record passes if and only
  if its difficulty field, as it stands in the data, equals \<open>d\<close>; so the displayed list
  holds the records that pass the search and have exactly that difficulty. With \<^verbatim>\<open>all\<close>
  the difficulty filter changes nothing: the displayed list is the sorted search result.
  With an empty search term the displayed list always exists and holds the records of the
  full set with that difficulty. A record without a difficulty field passes no filter but
  \<^verbatim>\<open>all\<close>.
\<close>

theorem difficulty_filter_exact:
  "(d \<noteq> ''all'' \<longrightarrow>
      (q \<in> set (difficulty_filter d qs) \<longleftrightarrow> q \<in> set qs \<and> Difficulty q = Some d))
   \<and> difficulty_filter ''all'' qs = qs
   \<and> (difficultyFilter st \<noteq> ''all''
        \<and> search_filter toLowerCase (searchTerm st) (questions st) = Inr f \<longrightarrow>
        (\<exists>r. displayed parseFloat localeCompare toLowerCase st = Inr r
           \<and> (q \<in> set r \<longleftrightarrow> q \<in> set f \<and> Difficulty q = Some (difficultyFilter st))))
   \<and> (difficultyFilter st = ''all''
        \<and> search_filter toLowerCase (searchTerm st) (questions st) = Inr f \<longrightarrow>
        displayed parseFloat localeCompare toLowerCase st =
          Inr (Array_sort (compareFn parseFloat localeCompare (sortConfig st)) f))
   \<and> (searchTerm st = [] \<longrightarrow>
        (\<exists>r. displayed parseFloat localeCompare toLowerCase st = Inr r
           \<and> (q \<in> set r \<longleftrightarrow>
                q \<in> set (questions st)
                \<and> (difficultyFilter st = ''all'' \<or> Difficulty q = Some (difficultyFilter st)))))"
proof (intro conjI impI)
  assume "d \<noteq> ''all''"
  then show "q \<in> set (difficulty_filter d qs) \<longleftrightarrow> q \<in> set qs \<and> Difficulty q = Some d"
    by (simp add: set_difficulty_filter)
next
  show "difficulty_filter ''all'' qs = qs" by (simp add: difficulty_filter_def)
next
  assume h: "difficultyFilter st \<noteq> ''all''
        \<and> search_filter toLowerCase (searchTerm st) (questions st) = Inr f"
  then have sf: "search_filter toLowerCase (searchTerm st) (questions st) = Inr f" by simp
  show "\<exists>r. displayed parseFloat localeCompare toLowerCase st = Inr r
           \<and> (q \<in> set r \<longleftrightarrow> q \<in> set f \<and> Difficulty q = Some (difficultyFilter st))"
    unfolding displayed_of_search[OF sf] using h
    by (simp add: set_Array_sort set_difficulty_filter)
next
  assume h: "difficultyFilter st = ''all''
        \<and> search_filter toLowerCase (searchTerm st) (questions st) = Inr f"
  then have sf: "search_filter toLowerCase (searchTerm st) (questions st) = Inr f" by simp
  show "displayed parseFloat localeCompare toLowerCase st =
          Inr (Array_sort (compareFn parseFloat localeCompare (sortConfig st)) f)"
    unfolding displayed_of_search[OF sf] using h by (simp add: difficulty_filter_def)
next
  assume e: "searchTerm st = []"
  then have sf: "search_filter toLowerCase (searchTerm st) (questions st) = Inr (questions st)"
    by (simp add: search_filter_def)
  show "\<exists>r. displayed parseFloat localeCompare toLowerCase st = Inr r
           \<and> (q \<in> set r \<longleftrightarrow>
                q \<in> set (questions st)
                \<and> (difficultyFilter st = ''all'' \<or> Difficulty q = Some (difficultyFilter st)))"
    unfolding displayed_of_search[OF sf]
    by (simp add: set_Array_sort set_difficulty_filter)
qed

theorem difficulty_filter_exact_witness:
  "''Easy'' \<noteq> ''all''
   \<and> difficulty_filter ''Easy'' [two_sum, merge_k_lists] = [two_sum]
   \<and> difficulty_filter ''easy'' [two_sum, merge_k_lists] = []
   \<and> difficulty_filter ''all'' [two_sum, merge_k_lists] = [two_sum, merge_k_lists]
   \<and> difficulty_filter [] [two_sum, empty_line] = []
   \<and> searchTerm (example_state\<lparr>difficultyFilter := ''Hard''\<rparr>) = []
   \<and> displayed example_parseFloat example_localeCompare ascii_toLowerCase
        (example_state\<lparr>difficultyFilter := ''Hard''\<rparr>) = Inr [merge_k_lists]
   \<and> displayed example_parseFloat example_localeCompare ascii_toLowerCase
        (example_state\<lparr>difficultyFilter := ''hard''\<rparr>) = Inr []
   \<and> displayed example_parseFloat example_localeCompare ascii_toLowerCase example_state
       = Inr [two_sum, merge_k_lists]"
proof -
  let ?pf = example_parseFloat and ?lc = example_localeCompare and ?tl = ascii_toLowerCase
  let ?H = "example_state\<lparr>difficultyFilter := ''Hard''\<rparr>"
  let ?h = "example_state\<lparr>difficultyFilter := ''hard''\<rparr>"
  have q: "questions example_state = [two_sum, merge_k_lists]"
    by (simp add: example_state_def setQuestions_def)
  have st: "searchTerm example_state = []" "difficultyFilter example_state = ''all''"
    by (simp_all add: example_state_def setQuestions_def initial_state_def)
  have sf: "search_filter ?tl (searchTerm s) (questions s) = Inr [two_sum, merge_k_lists]"
    if "searchTerm s = []" "questions s = [two_sum, merge_k_lists]" for s
    using that by (simp add: search_filter_def)
  have a: "difficulty_filter ''Easy'' [two_sum, merge_k_lists] = [two_sum]"
    by (simp add: difficulty_filter_def two_sum_def merge_k_lists_def)
  have b: "difficulty_filter ''easy'' [two_sum, merge_k_lists] = []"
    by (simp add: difficulty_filter_def two_sum_def merge_k_lists_def)
  have c: "difficulty_filter ''all'' [two_sum, merge_k_lists] = [two_sum, merge_k_lists]"
    using difficulty_filter_exact[of _ _ "[two_sum, merge_k_lists]"] by simp
  have m: "merge_k_lists \<in> set (difficulty_filter ''Hard'' [two_sum, merge_k_lists])"
    using difficulty_filter_exact[of "''Hard''" merge_k_lists "[two_sum, merge_k_lists]"]
    by (simp add: merge_k_lists_def)
  have d: "displayed ?pf ?lc ?tl ?H = Inr [merge_k_lists]"
    using displayed_of_search[of ?tl ?H "[two_sum, merge_k_lists]" ?pf ?lc] sf[of ?H] q st
    by (simp add: difficulty_filter_def two_sum_def merge_k_lists_def Array_sort_def)
  have e: "displayed ?pf ?lc ?tl ?h = Inr []"
    using displayed_of_search[of ?tl ?h "[two_sum, merge_k_lists]" ?pf ?lc] sf[of ?h] q st
    by (simp add: difficulty_filter_def two_sum_def merge_k_lists_def Array_sort_def)
  have "displayed ?pf ?lc ?tl example_state =
          Inr (Array_sort (compareFn ?pf ?lc (sortConfig example_state))
                 [two_sum, merge_k_lists])"
    using difficulty_filter_exact[of _ _ _ example_state ?tl "[two_sum, merge_k_lists]" ?pf ?lc]
      sf[of example_state] q st by simp
  moreover have "Array_sort (compareFn ?pf ?lc (sortConfig example_state))
                 [two_sum, merge_k_lists] = [two_sum, merge_k_lists]"
    by code_simp
  ultimately have f: "displayed ?pf ?lc ?tl example_state = Inr [two_sum, merge_k_lists]"
    by simp
  have g: "''Easy'' \<noteq> ''all''" by simp
  have h: "searchTerm ?H = []" using st by simp
  have i: "difficulty_filter [] [two_sum, empty_line] = []"
    by (simp add: difficulty_filter_def two_sum_def empty_line_def)
  from g a b c i h d e f show ?thesis by (intro conjI)
qed

section \<open>Sorting by frequency\<close>

text \<open>On numbers other than \<^verbatim>\<open>NaN\<close>, "the difference is positive" is a strict total order.\<close>

lemma positive_asym:
  "positive (js_minus a b) \<Longrightarrow> \<not> positive (js_minus b a)"
  by (cases a; cases b) auto

lemma positive_total:
  "a \<noteq> NaN \<Longrightarrow> b \<noteq> NaN \<Longrightarrow> a \<noteq> b \<Longrightarrow> positive (js_minus a b) \<or> positive (js_minus b a)"
  by (cases a; cases b) auto

lemma positive_trans:
  "positive (js_minus c b) \<Longrightarrow> positive (js_minus b a) \<Longrightarrow> positive (js_minus c a)"
  by (cases a; cases b; cases c) auto

text \<open>
  For a comparator that is transitive and decides every pair of distinct elements, the
  sort returns the elements in strictly increasing order, and there is only one such list.
\<close>

lemma sorted_insert_by:
  assumes "sorted_wrt (\<lambda>a b. positive (cmp b a)) ys"
    and "\<forall>y\<in>set ys. \<not> positive (cmp x y) \<longrightarrow> positive (cmp y x)"
    and "\<And>a b c. positive (cmp c b) \<Longrightarrow> positive (cmp b a) \<Longrightarrow> positive (cmp c a)"
  shows "sorted_wrt (\<lambda>a b. positive (cmp b a)) (insert_by cmp x ys)"
  using assms(1,2)
proof (induction ys)
  case Nil
  show ?case by simp
next
  case (Cons y ys)
  show ?case
  proof (cases "positive (cmp x y)")
    case True
    have "sorted_wrt (\<lambda>a b. positive (cmp b a)) (insert_by cmp x ys)"
      using Cons by simp
    moreover have "\<forall>z\<in>set (insert_by cmp x ys). positive (cmp z y)"
      using True Cons.prems(1) by (simp add: set_insert_by)
    ultimately show ?thesis using True by simp
  next
    case False
    then have xy: "positive (cmp y x)" using Cons.prems(2) by simp
    have "\<forall>z\<in>set ys. positive (cmp z x)"
    proof
      fix z assume "z \<in> set ys"
      then have "positive (cmp z y)" using Cons.prems(1) by simp
      then show "positive (cmp z x)" using xy by (rule assms(3))
    qed
    with False xy Cons.prems(1) show ?thesis by simp
  qed
qed

lemma sorted_Array_sort:
  assumes "distinct xs"
    and "\<forall>x\<in>set xs. \<forall>y\<in>set xs. x \<noteq> y \<longrightarrow> positive (cmp x y) \<or> positive (cmp y x)"
    and "\<And>a b c. positive (cmp c b) \<Longrightarrow> positive (cmp b a) \<Longrightarrow> positive (cmp c a)"
  shows "sorted_wrt (\<lambda>a b. positive (cmp b a)) (Array_sort cmp xs)"
  using assms(1,2)
proof (induction xs)
  case Nil
  show ?case by (simp add: Array_sort_def)
next
  case (Cons x xs)
  have s: "sorted_wrt (\<lambda>a b. positive (cmp b a)) (Array_sort cmp xs)"
    using Cons by simp
  have t: "\<forall>y\<in>set (Array_sort cmp xs). \<not> positive (cmp x y) \<longrightarrow> positive (cmp y x)"
  proof (intro ballI impI)
    fix y assume y: "y \<in> set (Array_sort cmp xs)" and n: "\<not> positive (cmp x y)"
    from y have "y \<in> set xs" by (simp add: set_Array_sort)
    moreover from this have "x \<noteq> y" using Cons.prems(1) by auto
    ultimately have "positive (cmp x y) \<or> positive (cmp y x)" using Cons.prems(2) by simp
    with n show "positive (cmp y x)" by simp
  qed
  have "Array_sort cmp (x # xs) = insert_by cmp x (Array_sort cmp xs)"
    by (simp add: Array_sort_def)
  then show ?case using sorted_insert_by[OF s t assms(3)] by simp
qed

lemma strictly_sorted_head_fresh:
  assumes "sorted_wrt B (x # xs)" "\<And>a b. B a b \<Longrightarrow> \<not> B b a"
  shows "x \<notin> set xs"
proof
  assume m: "x \<in> set xs"
  from assms(1) have "\<forall>z\<in>set xs. B x z" by simp
  with m have "B x x" by (rule bspec[rotated])
  with assms(2)[of x x] show False by simp
qed

lemma strictly_sorted_unique:
  assumes "sorted_wrt B xs" "sorted_wrt B ys" "set xs = set ys"
    and "\<And>a b. B a b \<Longrightarrow> \<not> B b a"
  shows "xs = ys"
  using assms(1,2,3)
proof (induction xs arbitrary: ys)
  case Nil
  from Nil.prems(3) show ?case by simp
next
  case (Cons x xs)
  have "ys \<noteq> []"
  proof
    assume "ys = []"
    with Cons.prems(3) show False by simp
  qed
  then obtain y ys' where y: "ys = y # ys'" by (cases ys) simp_all
  have sx: "sorted_wrt B (x # xs)" by (rule Cons.prems(1))
  have sy: "sorted_wrt B (y # ys')" using Cons.prems(2) unfolding y .
  have xn: "x \<notin> set xs" using sx assms(4) by (rule strictly_sorted_head_fresh)
  have yn: "y \<notin> set ys'" using sy assms(4) by (rule strictly_sorted_head_fresh)
  have sets: "insert x (set xs) = insert y (set ys')" using Cons.prems(3) unfolding y by simp
  have bx: "\<forall>z\<in>set xs. B x z" using sx by simp
  have by': "\<forall>z\<in>set ys'. B y z" using sy by simp
  have xy: "x = y"
  proof (rule ccontr)
    assume ne: "x \<noteq> y"
    have "x \<in> insert y (set ys')" unfolding sets[symmetric] by simp
    with ne have "x \<in> set ys'" by simp
    with by' have 1: "B y x" by (rule bspec)
    have "y \<in> insert x (set xs)" unfolding sets by simp
    with ne have "y \<in> set xs" by simp
    with bx have "B x y" by (rule bspec)
    with 1 assms(4)[of x y] show False by simp
  qed
  have e: "set xs = set ys'"
  proof -
    have "insert x (set xs) - {x} = insert y (set ys') - {x}" by (simp only: sets)
    moreover have "insert x (set xs) - {x} = set xs" using xn by simp
    moreover have "insert y (set ys') - {x} = set ys'" using yn unfolding xy by simp
    ultimately show ?thesis by simp
  qed
  have s1: "sorted_wrt B xs" using sx by simp
  have s2: "sorted_wrt B ys'" using sy by simp
  have "xs = ys'" using s1 s2 e by (rule Cons.IH)
  then show ?case unfolding y xy by simp
qed

lemma frequency_sort_reverse:
  assumes num: "\<forall>q\<in>set qs. parseFloat (ToString (Frequency q)) \<noteq> NaN"
    and dist: "distinct (map (\<lambda>q. parseFloat (ToString (Frequency q))) qs)"
  shows "Array_sort (compareFn parseFloat localeCompare \<lparr>key = KFrequency, direction = Desc\<rparr>) qs =
         rev (Array_sort (compareFn parseFloat localeCompare \<lparr>key = KFrequency, direction = Asc\<rparr>) qs)"
proof -
  let ?f = "\<lambda>q. parseFloat (ToString (Frequency q))"
  let ?asc = "compareFn parseFloat localeCompare \<lparr>key = KFrequency, direction = Asc\<rparr>"
  let ?desc = "compareFn parseFloat localeCompare \<lparr>key = KFrequency, direction = Desc\<rparr>"
  have asc: "?asc a b = js_minus (?f a) (?f b)" for a b by (simp add: compareFn_def)
  have desc: "?desc a b = js_minus (?f b) (?f a)" for a b by (simp add: compareFn_def)
  have dxs: "distinct qs" using dist by (simp add: distinct_map)
  have io: "inj_on ?f (set qs)" using dist by (simp add: distinct_map)
  have tot: "positive (js_minus (?f x) (?f y)) \<or> positive (js_minus (?f y) (?f x))"
    if "x \<in> set qs" "y \<in> set qs" "x \<noteq> y" for x y
  proof (rule positive_total)
    show "?f x \<noteq> NaN" using num that(1) by simp
    show "?f y \<noteq> NaN" using num that(2) by simp
    show "?f x \<noteq> ?f y" using io that by (auto dest: inj_onD)
  qed
  have tot_asc: "\<forall>x\<in>set qs. \<forall>y\<in>set qs. x \<noteq> y \<longrightarrow> positive (?asc x y) \<or> positive (?asc y x)"
    unfolding asc using tot by simp
  have tot_desc: "\<forall>x\<in>set qs. \<forall>y\<in>set qs. x \<noteq> y \<longrightarrow> positive (?desc x y) \<or> positive (?desc y x)"
    unfolding desc using tot by auto
  have sa: "sorted_wrt (\<lambda>a b. positive (?asc b a)) (Array_sort ?asc qs)"
    using dxs tot_asc
  proof (rule sorted_Array_sort)
    fix a b c assume "positive (?asc c b)" "positive (?asc b a)"
    then show "positive (?asc c a)" unfolding asc by (rule positive_trans)
  qed
  have sd: "sorted_wrt (\<lambda>a b. positive (?desc b a)) (Array_sort ?desc qs)"
    using dxs tot_desc
  proof (rule sorted_Array_sort)
    fix a b c assume "positive (?desc c b)" "positive (?desc b a)"
    then show "positive (?desc c a)" unfolding desc by (rule positive_trans[rotated])
  qed
  have ra: "sorted_wrt (\<lambda>a b. positive (?desc b a)) (rev (Array_sort ?asc qs))"
    using sa by (simp add: sorted_wrt_rev asc desc)
  show ?thesis
  proof (rule strictly_sorted_unique[OF sd ra])
    show "set (Array_sort ?desc qs) = set (rev (Array_sort ?asc qs))"
      by (simp add: set_Array_sort)
  next
    fix a b assume "positive (?desc b a)"
    then show "\<not> positive (?desc a b)" unfolding desc by (rule positive_asym)
  qed
qed

text \<open>When the search returns, the two filters together select records of the full set.\<close>

lemma filters_are_a_filter:
  assumes "search_filter toLowerCase s qs = Inr f"
  shows "\<exists>P. difficulty_filter d f = filter P qs"
proof -
  obtain P1 where p1: "f = filter P1 qs"
  proof (cases "s = []")
    case True
    then have "f = filter (\<lambda>q. True) qs" using assms by (simp add: search_filter_def)
    then show ?thesis by (rule that)
  next
    case False
    then have "filter_throwing (search_callback toLowerCase s) qs = Inr f"
      using assms by (simp add: search_filter_def)
    then have "f = filter (\<lambda>x. search_callback toLowerCase s x = Inr True) qs"
      by (rule filter_throwing_result)
    then show ?thesis by (rule that)
  qed
  show ?thesis
  proof (cases "d = ''all''")
    case True
    then show ?thesis using p1 by (auto simp: difficulty_filter_def)
  next
    case False
    then have "difficulty_filter d f = filter (\<lambda>q. P1 q \<and> Difficulty q = Some d) qs"
      by (simp add: difficulty_filter_def p1 conj_commute)
    then show ?thesis by blast
  qed
qed

text \<open>
  Claim C8: when every frequency of the record set parses to a number and no two records
  have the same numeric frequency, sorting by frequency descending gives the reverse of
  sorting by frequency ascending, for the record set itself and for the displayed list
  under any search term and difficulty filter: either the search throws under both sort
  directions, or the two displayed lists are each other's reverse. With an empty search
  term both lists exist.
\<close>

theorem frequency_sort_desc_reverses_asc:
  assumes num: "\<forall>q\<in>set (questions st). parseFloat (ToString (Frequency q)) \<noteq> NaN"
    and dist: "distinct (map (\<lambda>q. parseFloat (ToString (Frequency q))) (questions st))"
  shows
    "Array_sort (compareFn parseFloat localeCompare \<lparr>key = KFrequency, direction = Desc\<rparr>)
        (questions st) =
      rev (Array_sort (compareFn parseFloat localeCompare \<lparr>key = KFrequency, direction = Asc\<rparr>)
        (questions st))
     \<and> displayed parseFloat localeCompare toLowerCase
          (st\<lparr>sortConfig := \<lparr>key = KFrequency, direction = Desc\<rparr>\<rparr>) =
        map_sum id rev (displayed parseFloat localeCompare toLowerCase
          (st\<lparr>sortConfig := \<lparr>key = KFrequency, direction = Asc\<rparr>\<rparr>))
     \<and> (searchTerm st = [] \<longrightarrow>
          (\<exists>r. displayed parseFloat localeCompare toLowerCase
                 (st\<lparr>sortConfig := \<lparr>key = KFrequency, direction = Asc\<rparr>\<rparr>) = Inr r
              \<and> displayed parseFloat localeCompare toLowerCase
                 (st\<lparr>sortConfig := \<lparr>key = KFrequency, direction = Desc\<rparr>\<rparr>) = Inr (rev r)))"
proof -
  let ?asc = "\<lparr>key = KFrequency, direction = Asc\<rparr>"
  let ?desc = "\<lparr>key = KFrequency, direction = Desc\<rparr>"
  have a: "Array_sort (compareFn parseFloat localeCompare ?desc) (questions st) =
      rev (Array_sort (compareFn parseFloat localeCompare ?asc) (questions st))"
    using num dist by (rule frequency_sort_reverse)
  have b: "displayed parseFloat localeCompare toLowerCase (st\<lparr>sortConfig := ?desc\<rparr>) =
        map_sum id rev (displayed parseFloat localeCompare toLowerCase (st\<lparr>sortConfig := ?asc\<rparr>))"
  proof (cases "search_filter toLowerCase (searchTerm st) (questions st)")
    case (Inl e)
    then show ?thesis by (simp add: displayed_def)
  next
    case (Inr f)
    obtain P where P: "difficulty_filter (difficultyFilter st) f = filter P (questions st)"
      using filters_are_a_filter[OF Inr] by blast
    have n: "\<forall>q\<in>set (filter P (questions st)). parseFloat (ToString (Frequency q)) \<noteq> NaN"
      using num by simp
    have d: "distinct (map (\<lambda>q. parseFloat (ToString (Frequency q))) (filter P (questions st)))"
      using dist by (rule distinct_map_filter)
    have "Array_sort (compareFn parseFloat localeCompare ?desc) (filter P (questions st)) =
      rev (Array_sort (compareFn parseFloat localeCompare ?asc) (filter P (questions st)))"
      using n d by (rule frequency_sort_reverse)
    then show ?thesis using Inr by (simp add: displayed_def P)
  qed
  have c: "\<exists>r. displayed parseFloat localeCompare toLowerCase (st\<lparr>sortConfig := ?asc\<rparr>) = Inr r
              \<and> displayed parseFloat localeCompare toLowerCase (st\<lparr>sortConfig := ?desc\<rparr>)
                  = Inr (rev r)"
    if "searchTerm st = []"
  proof -
    from that obtain r where
      r: "displayed parseFloat localeCompare toLowerCase (st\<lparr>sortConfig := ?asc\<rparr>) = Inr r"
      by (simp add: displayed_def search_filter_def)
    with b show ?thesis by simp
  qed
  from a b c show ?thesis by (intro conjI impI)
qed

theorem frequency_sort_desc_reverses_asc_witness:
  "example_parseFloat (ToString (Frequency two_sum)) \<noteq> NaN
   \<and> example_parseFloat (ToString (Frequency merge_k_lists)) \<noteq> NaN
   \<and> distinct (map (\<lambda>q. example_parseFloat (ToString (Frequency q))) (questions example_state))
   \<and> searchTerm example_state = []
   \<and> displayed example_parseFloat example_localeCompare ascii_toLowerCase
        (example_state\<lparr>sortConfig := \<lparr>key = KFrequency, direction = Desc\<rparr>\<rparr>) =
      Inr [two_sum, merge_k_lists]
   \<and> displayed example_parseFloat example_localeCompare ascii_toLowerCase
        (example_state\<lparr>sortConfig := \<lparr>key = KFrequency, direction = Asc\<rparr>\<rparr>) =
      Inr [merge_k_lists, two_sum]"
proof -
  have f: "example_parseFloat (ToString (Frequency two_sum)) = Fin (171 / 2)"
    "example_parseFloat (ToString (Frequency merge_k_lists)) = Fin (421 / 10)"
    by (simp_all add: example_parseFloat_def ToString_def two_sum_def merge_k_lists_def)
  have n: "\<forall>q\<in>set (questions example_state). example_parseFloat (ToString (Frequency q)) \<noteq> NaN"
    by (simp add: example_titles f)
  have d: "distinct (map (\<lambda>q. example_parseFloat (ToString (Frequency q))) (questions example_state))"
    by (simp add: example_titles f)
  have e: "searchTerm example_state = []" "difficultyFilter example_state = ''all''"
    by (simp_all add: example_state_def setQuestions_def initial_state_def)
  have a: "displayed example_parseFloat example_localeCompare ascii_toLowerCase
        (example_state\<lparr>sortConfig := \<lparr>key = KFrequency, direction = Asc\<rparr>\<rparr>) =
      Inr [merge_k_lists, two_sum]"
    by (simp add: displayed_def search_filter_def difficulty_filter_def e example_titles
        Array_sort_def compareFn_def f)
  have b: "displayed example_parseFloat example_localeCompare ascii_toLowerCase
        (example_state\<lparr>sortConfig := \<lparr>key = KFrequency, direction = Desc\<rparr>\<rparr>) =
      Inr [two_sum, merge_k_lists]"
    using frequency_sort_desc_reverses_asc
      [OF n d, of example_localeCompare ascii_toLowerCase, THEN conjunct2, THEN conjunct1] a
    by simp
  from f n d e a b show ?thesis by simp
qed

section \<open>The progress percentage\<close>

text \<open>Rounding to a double changes a non-negative value by at most the fraction \<open>2^-53\<close> of it.\<close>

lemma pow2_powi: "pow2 e = 2 powi e"
  by (simp add: pow2_def power_int_def inverse_eq_divide power_one_over)

lemma pow2_pos: "0 < pow2 e"
  by (simp add: pow2_powi)

lemma pow2_shift: "pow2 (e - 52) * 2 ^ 52 = pow2 e"
proof -
  have "(2::rat) powi (e - 52) = 2 powi e / 2 powi 52" by (rule power_int_diff) simp
  then show ?thesis by (simp add: pow2_powi)
qed

lemma binade_lower:
  assumes "0 < x"
  shows "pow2 (binade x) \<le> x"
proof -
  obtain p q where pq: "quotient_of x = (p, q)" by (cases "quotient_of x")
  have q: "0 < q" using pq by (rule quotient_of_denom_pos)
  have x: "x = of_int p / of_int q" using pq by (rule quotient_of_div)
  have p: "0 < p"
  proof (rule ccontr)
    assume "\<not> 0 < p"
    then have "(of_int p :: rat) \<le> 0" by simp
    then have "x \<le> 0" unfolding x using q by (simp add: divide_nonpos_pos)
    with assms show False by simp
  qed
  have lp: "1 \<le> bitlen p" using p by (simp add: bitlen_alt_def)
  have lq: "1 \<le> bitlen q" using q by (simp add: bitlen_alt_def)
  have bp: "(2::int) ^ nat (bitlen p - 1) \<le> p" using bitlen_bounds[OF p] by simp
  have bq: "q < (2::int) ^ nat (bitlen q)" using bitlen_bounds[OF q] by simp
  have bp': "(2::rat) ^ nat (bitlen p - 1) \<le> of_int p"
    using bp by (metis of_int_le_iff of_int_numeral of_int_power)
  have bq': "(of_int q :: rat) \<le> 2 ^ nat (bitlen q)"
    using bq by (metis less_imp_le of_int_le_iff of_int_numeral of_int_power)
  have "pow2 (bitlen p - bitlen q - 1) = 2 powi (bitlen p - 1) / 2 powi (bitlen q)"
  proof -
    have "(2::rat) powi ((bitlen p - 1) - bitlen q) = 2 powi (bitlen p - 1) / 2 powi (bitlen q)"
      by (rule power_int_diff) simp
    then show ?thesis by (simp add: pow2_powi algebra_simps)
  qed
  also have "\<dots> = 2 ^ nat (bitlen p - 1) / 2 ^ nat (bitlen q)"
    using lp lq by (simp add: power_int_def)
  also have "\<dots> \<le> of_int p / of_int q"
    using bp' bq' q p by (intro frac_le) simp_all
  finally have low: "pow2 (bitlen p - bitlen q - 1) \<le> x" unfolding x .
  show ?thesis
  proof (cases "pow2 (bitlen p - bitlen q) \<le> x")
    case True
    then show ?thesis by (simp add: binade_def pq)
  next
    case False
    then show ?thesis using low by (simp add: binade_def pq)
  qed
qed

lemma round_half_even_error: "\<bar>of_int (round_half_even y) - y\<bar> \<le> 1 / 2"
proof -
  have "of_int \<lfloor>y\<rfloor> \<le> y" "y < of_int \<lfloor>y\<rfloor> + 1" by linarith+
  then show ?thesis by (auto simp: round_half_even_def Let_def)
qed

lemma fl_error:
  assumes "0 \<le> x"
  shows "\<bar>fl x - x\<bar> \<le> x / 2 ^ 53"
proof (cases "x = 0")
  case True
  then show ?thesis by (simp add: fl_def)
next
  case False
  with assms have pos: "0 < x" by simp
  define u where "u = pow2 (binade x - 52)"
  define r where "r = round_half_even (x / u)"
  have u: "0 < u" unfolding u_def by (rule pow2_pos)
  have f: "fl x = of_int r * u"
    using pos by (simp add: fl_def Let_def u_def r_def)
  have "u * 2 ^ 52 = pow2 (binade x)" unfolding u_def by (rule pow2_shift)
  also have "\<dots> \<le> x" using pos by (rule binade_lower)
  finally have ux: "u * 2 ^ 52 \<le> x" .
  have "\<bar>of_int r - x / u\<bar> \<le> 1 / 2" unfolding r_def by (rule round_half_even_error)
  then have "\<bar>of_int r - x / u\<bar> * u \<le> 1 / 2 * u" using u by (intro mult_right_mono) simp_all
  moreover have "\<bar>of_int r - x / u\<bar> * u = \<bar>of_int r * u - x\<bar>"
  proof -
    have "\<bar>of_int r - x / u\<bar> * u = \<bar>(of_int r - x / u) * u\<bar>"
      using u by (simp add: abs_mult)
    also have "(of_int r - x / u) * u = of_int r * u - x"
      using u by (simp add: algebra_simps)
    finally show ?thesis .
  qed
  ultimately have "\<bar>fl x - x\<bar> \<le> u / 2" by (simp add: f)
  also have "u / 2 \<le> x / 2 ^ 53" using ux by (simp add: field_simps)
  finally show ?thesis .
qed

lemma fl_nonneg:
  assumes "0 \<le> x"
  shows "0 \<le> fl x"
proof -
  have "\<bar>fl x - x\<bar> \<le> x / 2 ^ 53" using assms by (rule fl_error)
  moreover have "x / 2 ^ 53 \<le> x" using assms by (simp add: field_simps)
  ultimately show ?thesis by linarith
qed

lemma Math_round_error: "\<bar>of_int (Math_round v) - v\<bar> \<le> 1 / 2"
proof -
  have "of_int \<lfloor>v + 1 / 2\<rfloor> \<le> v + 1 / 2" "v + 1 / 2 < of_int \<lfloor>v + 1 / 2\<rfloor> + 1" by linarith+
  then show ?thesis unfolding Math_round_def by linarith
qed

text \<open>The computed product is within \<open>300 / 2^53\<close> of the exact percentage.\<close>

lemma percentage_error:
  assumes "c \<le> n" "0 < n"
  shows "\<bar>fmul (fdiv (of_nat c) (of_nat n)) 100 - of_nat c / of_nat n * 100\<bar> \<le> 300 / 2 ^ 53"
proof -
  define x :: rat where "x = of_nat c / of_nat n"
  define d where "d = fl x"
  define v where "v = fl (d * 100)"
  have x0: "0 \<le> x" unfolding x_def by simp
  have x1: "x \<le> 1" unfolding x_def using assms by (simp add: field_simps)
  have e1: "\<bar>d - x\<bar> \<le> x / 2 ^ 53" unfolding d_def using x0 by (rule fl_error)
  have d0: "0 \<le> d" unfolding d_def using x0 by (rule fl_nonneg)
  have xe: "x / 2 ^ 53 \<le> 1 / 2 ^ 53" using x1 by (simp add: field_simps)
  have k: "(2::rat) ^ 53 = 9007199254740992" by simp
  have d2: "d \<le> 2" using e1 xe x1 unfolding k by linarith
  have "0 \<le> d * 100" using d0 by simp
  then have e2: "\<bar>v - d * 100\<bar> \<le> d * 100 / 2 ^ 53" unfolding v_def by (rule fl_error)
  have de: "d * 100 / 2 ^ 53 \<le> 200 / 2 ^ 53" using d2 by (simp add: field_simps)
  have "\<bar>v - x * 100\<bar> \<le> 300 / 2 ^ 53" using e1 e2 xe de unfolding k by linarith
  then show ?thesis by (simp add: v_def d_def x_def fmul_def fdiv_def)
qed

text \<open>
  Claim C9, as the code has it: \<open>progress\<close> is 0 for an empty record set, without any
  division. Otherwise it is \<^verbatim>\<open>Math.round\<close> of the double-precision value of
  (completed count / total count) * 100 over the full record set; that value is within
  \<open>1/2 + 300 / 2^53\<close> of the exact percentage, lies between 0 and 100, and differs from the
  exactly rounded percentage by at most one.
\<close>

theorem progress_is_rounded_double_percentage:
  "progress [] = 0
   \<and> (qs \<noteq> [] \<longrightarrow>
        progress qs =
          Math_round (fmul (fdiv (of_nat (length (filter (\<lambda>q. truthy (completed q)) qs)))
                                 (of_nat (length qs))) 100)
        \<and> \<bar>(of_int (progress qs) :: rat)
             - of_nat (length (filter (\<lambda>q. truthy (completed q)) qs)) / of_nat (length qs) * 100\<bar>
            \<le> 1 / 2 + 300 / 2 ^ 53
        \<and> 0 \<le> progress qs \<and> progress qs \<le> 100
        \<and> \<bar>progress qs - spec_progress qs\<bar> \<le> 1)"
proof -
  have z: "progress [] = 0" by (simp add: progress_def)
  have m: "qs \<noteq> [] \<longrightarrow>
        progress qs =
          Math_round (fmul (fdiv (of_nat (length (filter (\<lambda>q. truthy (completed q)) qs)))
                                 (of_nat (length qs))) 100)
        \<and> \<bar>(of_int (progress qs) :: rat)
             - of_nat (length (filter (\<lambda>q. truthy (completed q)) qs)) / of_nat (length qs) * 100\<bar>
            \<le> 1 / 2 + 300 / 2 ^ 53
        \<and> 0 \<le> progress qs \<and> progress qs \<le> 100
        \<and> \<bar>progress qs - spec_progress qs\<bar> \<le> 1"
  proof
    assume ne: "qs \<noteq> []"
    define c where "c = length (filter (\<lambda>q. truthy (completed q)) qs)"
    define n where "n = length qs"
    define v where "v = fmul (fdiv (of_nat c) (of_nat n)) 100"
    define x :: rat where "x = of_nat c / of_nat n * 100"
    have n: "0 < n" using ne by (simp add: n_def)
    have cn: "c \<le> n" by (simp add: c_def n_def)
    have p: "progress qs = Math_round v" using n by (simp add: progress_def v_def c_def n_def)
    have s: "spec_progress qs = Math_round x"
      using n by (simp add: spec_progress_def x_def c_def n_def)
    have ev: "\<bar>v - x\<bar> \<le> 300 / 2 ^ 53" unfolding v_def x_def using cn n by (rule percentage_error)
    have rv: "\<bar>of_int (Math_round v) - v\<bar> \<le> 1 / 2" by (rule Math_round_error)
    have rx: "\<bar>of_int (Math_round x) - x\<bar> \<le> 1 / 2" by (rule Math_round_error)
    have x0: "0 \<le> x" unfolding x_def by simp
    have x100: "x \<le> 100" unfolding x_def using cn n by (simp add: field_simps)
    have k: "(2::rat) ^ 53 = 9007199254740992" by simp
    have small: "(300::rat) / 2 ^ 53 < 1 / 4" by simp
    have a: "\<bar>of_int (Math_round v) - x\<bar> \<le> 1 / 2 + 300 / 2 ^ 53"
      using ev rv unfolding k by linarith
    have "(- 1 :: rat) < of_int (Math_round v)" using a x0 small unfolding k by linarith
    then have lo: "0 \<le> Math_round v" by linarith
    have "of_int (Math_round v) < (101 :: rat)" using a x100 small unfolding k by linarith
    then have hi: "Math_round v \<le> 100" by linarith
    have "\<bar>(of_int (Math_round v) :: rat) - of_int (Math_round x)\<bar> < 2" using a rx small unfolding k by linarith
    then have "\<bar>(of_int (Math_round v - Math_round x) :: rat)\<bar> < 2" by simp
    then have "\<bar>Math_round v - Math_round x\<bar> < 2" by linarith
    then have df: "\<bar>Math_round v - Math_round x\<bar> \<le> 1" by simp
    show "progress qs =
          Math_round (fmul (fdiv (of_nat (length (filter (\<lambda>q. truthy (completed q)) qs)))
                                 (of_nat (length qs))) 100)
        \<and> \<bar>(of_int (progress qs) :: rat)
             - of_nat (length (filter (\<lambda>q. truthy (completed q)) qs)) / of_nat (length qs) * 100\<bar>
            \<le> 1 / 2 + 300 / 2 ^ 53
        \<and> 0 \<le> progress qs \<and> progress qs \<le> 100
        \<and> \<bar>progress qs - spec_progress qs\<bar> \<le> 1"
      using p[unfolded v_def c_def n_def] a[folded p, unfolded x_def c_def n_def]
        lo[folded p] hi[folded p] df[folded p s]
      by (intro conjI)
  qed
  show ?thesis using z m by (rule conjI)
qed

theorem progress_is_rounded_double_percentage_witness:
  "[two_sum\<lparr>completed := JBool True\<rparr>, merge_k_lists] \<noteq> []
   \<and> progress [two_sum\<lparr>completed := JBool True\<rparr>, merge_k_lists] = 50"
proof -
  have "Math_round (fmul (fdiv 1 2) 100) = 50" by code_simp
  then show ?thesis
    using progress_is_rounded_double_percentage[of "[two_sum\<lparr>completed := JBool True\<rparr>, merge_k_lists]"]
    by (simp add: merge_k_lists_def two_sum_def)
qed

text \<open>
  It is not always the exactly rounded percentage: with 23 of 40 records completed the
  exact value is 57.5, which rounds to 58, while the double product is 57.49999999999999
  and \<^verbatim>\<open>Math.round\<close> gives 57.
\<close>

theorem progress_exact_rounding_counterexample:
  "progress forty_questions = 57 \<and> spec_progress forty_questions = 58"
proof -
  have l: "length forty_questions = 40" by (simp add: forty_questions_def)
  have "filter (\<lambda>q. truthy (completed q)) forty_questions =
      map (\<lambda>i. two_sum\<lparr>Title := index_key i, completed := JBool (i < 23)\<rparr>) (filter (\<lambda>i. i < 23) [0..<40])"
    by (simp add: forty_questions_def filter_map comp_def)
  moreover have "filter (\<lambda>i. i < 23) [0..<40] = [0..<23]" by code_simp
  ultimately have c: "length (filter (\<lambda>q. truthy (completed q)) forty_questions) = 23" by simp
  have a: "Math_round (fmul (fdiv 23 40) 100) = 57" by code_simp
  have b: "Math_round (23 / 40 * 100) = 58" by code_simp
  show ?thesis using a b by (simp add: progress_def spec_progress_def l c)
qed

end
